theory Spec2Isabelle
  imports Main "HOL-Library.Word" "HOL-Library.AList"
begin

section \<open>Errors and byte arrays\<close>

text \<open>
  The module \<^verbatim>\<open>packages/core/src/encoding.ts\<close> signals its own failures as
  \<^verbatim>\<open>new Err(ErrorCode.ENCODING_ERROR)\<close>; the message is not modelled. The
  exceptions of the language itself that the code can meet are \<^verbatim>\<open>TypeError\<close>,
  \<^verbatim>\<open>SyntaxError\<close> and \<^verbatim>\<open>RangeError\<close>. A function that can throw returns
  \<open>error + 'a\<close>, with \<open>Inl\<close> for the exception.

  A \<^verbatim>\<open>Uint8Array\<close> is a list of 8-bit words. A string is a list of
  code units; the \<open>char\<close> type holds the code units below 256.
\<close>

datatype ErrorCode = ENCODING_ERROR

datatype error = Err ErrorCode | TypeError | SyntaxError | RangeError

type_synonym byte = "8 word"

section \<open>concatBytes\<close>

text \<open>
  \<^verbatim>\<open>res.set(arr, offset)\<close> of a typed array: a \<^verbatim>\<open>RangeError\<close> when the source
  does not fit behind the offset, the elements overwritten otherwise.
\<close>

definition Uint8Array_set :: "byte list \<Rightarrow> byte list \<Rightarrow> nat \<Rightarrow> error + byte list" where
  "Uint8Array_set res arr offset =
     (if length res < offset + length arr then Inl RangeError
      else Inr (take offset res @ arr @ drop (offset + length arr) res))"

text \<open>The loop \<^verbatim>\<open>for (const arr of arrs) { res.set(arr, offset); offset += arr.length; }\<close>.\<close>

fun concatBytes_loop :: "byte list list \<Rightarrow> byte list \<Rightarrow> nat \<Rightarrow> error + byte list" where
  "concatBytes_loop [] res offset = Inr res"
| "concatBytes_loop (arr # arrs) res offset =
     (case Uint8Array_set res arr offset of
        Inl e \<Rightarrow> Inl e
      | Inr res' \<Rightarrow> concatBytes_loop arrs res' (offset + length arr))"

definition concatBytes :: "byte list list \<Rightarrow> error + byte list" where
  "concatBytes arrs =
     (let len = foldl (\<lambda>len arr. len + length arr) 0 arrs;
          res = replicate len 0
      in concatBytes_loop arrs res 0)"

section \<open>Hexadecimal text\<close>

subsection \<open>parseInt with radix 16\<close>

text \<open>
  \<^verbatim>\<open>parseInt(s, 16)\<close>: leading white space is skipped, one sign is read, a prefix
  \<^verbatim>\<open>0x\<close> or \<^verbatim>\<open>0X\<close> is dropped, and the longest run of hexadecimal digits that
  follows is the number; the rest of the string is ignored. \<open>None\<close> stands for
  \<^verbatim>\<open>NaN\<close> (no digit at that place). It never throws.
\<close>

definition isWhiteSpace :: "char \<Rightarrow> bool" where
  "isWhiteSpace c = (of_char c \<in> {9, 10, 11, 12, 13, 32, 160 :: nat})"

definition hexValue :: "char \<Rightarrow> nat option" where
  "hexValue c =
     (let n = of_char c :: nat in
      if 48 \<le> n \<and> n \<le> 57 then Some (n - 48)
      else if 97 \<le> n \<and> n \<le> 102 then Some (n - 87)
      else if 65 \<le> n \<and> n \<le> 70 then Some (n - 55)
      else None)"

definition isHexDigit :: "char \<Rightarrow> bool" where
  "isHexDigit c = (hexValue c \<noteq> None)"

definition hexNumber :: "string \<Rightarrow> nat" where
  "hexNumber z = foldl (\<lambda>acc c. 16 * acc + the (hexValue c)) 0 z"

definition parseInt16 :: "string \<Rightarrow> int option" where
  "parseInt16 inputString =
     (let s = dropWhile isWhiteSpace inputString;
          sign = (case s of c # _ \<Rightarrow> if c = CHR ''-'' then - 1 else 1 | [] \<Rightarrow> (1 :: int));
          s1 = (case s of c # r \<Rightarrow> if c = CHR ''+'' \<or> c = CHR ''-'' then r else s | [] \<Rightarrow> s);
          s2 = (case s1 of
                  c # d # r \<Rightarrow> if c = CHR ''0'' \<and> (d = CHR ''x'' \<or> d = CHR ''X'') then r else s1
                | _ \<Rightarrow> s1);
          z = takeWhile isHexDigit s2
      in if z = [] then None else Some (sign * int (hexNumber z)))"

text \<open>
  Storing a number into a \<^verbatim>\<open>Uint8Array\<close> element converts it with \<^verbatim>\<open>ToUint8\<close>:
  \<^verbatim>\<open>NaN\<close> becomes 0, an integer is reduced modulo 256.
\<close>

definition ToUint8 :: "int option \<Rightarrow> byte" where
  "ToUint8 v = (case v of None \<Rightarrow> 0 | Some n \<Rightarrow> word_of_int n)"

text \<open>\<^verbatim>\<open>str.substring(a, b)\<close>: both indices are clamped to the length and swapped when out of order.\<close>

definition substring :: "string \<Rightarrow> nat \<Rightarrow> nat \<Rightarrow> string" where
  "substring str a b =
     (let a' = min a (length str); b' = min b (length str);
          lo = min a' b'; hi = max a' b'
      in take (hi - lo) (drop lo str))"

subsection \<open>hexToBytes\<close>

text \<open>
  \<^verbatim>\<open>new Uint8Array(str.length / 2)\<close> converts its argument with \<^verbatim>\<open>ToIndex\<close>
  (ECMAScript 2017 and later), which truncates: for a string of odd length the array has
  \<open>length str div 2\<close> elements and no exception is raised. The loop
  \<^verbatim>\<open>for (let i = 0; i < bytes.length; i++) bytes[i] = parseInt(str.substring(i * 2, i * 2 + 2), 16)\<close>
  runs over the array. Nothing inside the \<^verbatim>\<open>try\<close> block throws, so the \<^verbatim>\<open>catch\<close>
  branch that would raise \<^verbatim>\<open>ENCODING_ERROR\<close> has no way in.
\<close>

function hexToBytes_loop :: "string \<Rightarrow> nat \<Rightarrow> byte list \<Rightarrow> byte list" where
  "hexToBytes_loop str i bytes =
     (if i < length bytes
      then hexToBytes_loop str (i + 1)
             (bytes[i := ToUint8 (parseInt16 (substring str (i * 2) (i * 2 + 2)))])
      else bytes)"
  by pat_completeness auto
termination
  by (relation "measure (\<lambda>(str, i, bytes). length bytes - i)") auto

declare hexToBytes_loop.simps [simp del]

definition hexToBytes :: "string \<Rightarrow> error + byte list" where
  "hexToBytes str = Inr (hexToBytes_loop str 0 (replicate (length str div 2) 0))"

subsection \<open>bytesToHex\<close>

text \<open>\<^verbatim>\<open>b.toString(16)\<close> of a non-negative integer: lower-case digits, no padding.\<close>

definition hexDigit :: "nat \<Rightarrow> char" where
  "hexDigit d = ''0123456789abcdef'' ! d"

fun Number_toString16 :: "nat \<Rightarrow> string" where
  "Number_toString16 n =
     (if n < 16 then [hexDigit n] else Number_toString16 (n div 16) @ [hexDigit (n mod 16)])"

declare Number_toString16.simps [simp del]

text \<open>
  The loop \<^verbatim>\<open>for (const b of bytes) { const s = b.toString(16); str += s.length == 1 ? "0" + s : s; }\<close>.
\<close>

fun bytesToHex_loop :: "byte list \<Rightarrow> string \<Rightarrow> string" where
  "bytesToHex_loop [] str = str"
| "bytesToHex_loop (b # bytes) str =
     (let s = Number_toString16 (unat b)
      in bytesToHex_loop bytes (str @ (if length s = 1 then ''0'' @ s else s)))"

definition bytesToHex :: "byte list \<Rightarrow> error + string" where
  "bytesToHex bytes = Inr (bytesToHex_loop bytes [])"

text \<open>The two characters the loop appends for one byte: the high and the low hexadecimal digit.\<close>

definition twoHexDigits :: "byte \<Rightarrow> string" where
  "twoHexDigits b = [hexDigit (unat b div 16), hexDigit (unat b mod 16)]"

section \<open>Values and entities\<close>

text \<open>
  The values a property can hold: the scalars, arrays, plain objects (\<open>Obj\<close>) and
  instances of \<^verbatim>\<open>Serializable\<close> (\<open>Inst\<close>, the values for which
  \<^verbatim>\<open>val instanceof Serializable\<close> holds). An object, plain or instance, is the list of
  its own enumerable properties in the order \<^verbatim>\<open>Object.entries\<close> gives them; the names in
  one object are distinct. Numbers are the integral ones. Property values are data: no
  property of the model holds a function.
\<close>

datatype jsval =
    Undefined
  | Null
  | Bool bool
  | Num int
  | Str string
  | Arr "jsval list"
  | Obj "(string \<times> jsval) list"
  | Inst "(string \<times> jsval) list"

type_synonym props = "(string \<times> jsval) list"

definition hasOwnProperty :: "props \<Rightarrow> string \<Rightarrow> bool" where
  "hasOwnProperty obj key = (key \<in> set (map fst obj))"

text \<open>
  The assignment \<^verbatim>\<open>obj[key] = val\<close> on an object that takes it as an own data
  property: the value is replaced in place, or the property is added behind the others.
\<close>

definition setProp :: "string \<Rightarrow> jsval \<Rightarrow> props \<Rightarrow> props" where
  "setProp key val obj = AList.update key val obj"

definition startsWith :: "string \<Rightarrow> string \<Rightarrow> bool" where
  "startsWith str searchString = (take (length searchString) str = searchString)"

section \<open>Serializable\<close>

text \<open>
  The methods are those the base class defines. Of the methods a subclass is meant to
  override, \<^verbatim>\<open>validate\<close> is a parameter of the model; \<^verbatim>\<open>toRaw\<close> and
  \<^verbatim>\<open>fromRaw\<close> are the base implementations.
\<close>

subsection \<open>toRaw\<close>

text \<open>
  \<^verbatim>\<open>toRaw(exclude)\<close>, a function of the own properties of \<^verbatim>\<open>this\<close>: the loop
  over \<^verbatim>\<open>Object.entries(this)\<close>, with the object \<open>raw\<close> built so far as
  accumulator. A property whose name starts with an underscore or is listed in
  \<open>exclude\<close> is skipped. An instance is replaced by its own \<^verbatim>\<open>val.toRaw()\<close>,
  called without argument; in an array each element that is an instance is replaced so;
  every other value is stored as it is.
\<close>

fun toRaw_loop :: "string list \<Rightarrow> props \<Rightarrow> props \<Rightarrow> props" where
  "toRaw_loop exclude [] raw = raw"
| "toRaw_loop exclude ((prop, val) # entries) raw =
     (if startsWith prop ''_'' \<or> prop \<in> set exclude then toRaw_loop exclude entries raw
      else toRaw_loop exclude entries
        (setProp prop
          (case val of
             Inst ps \<Rightarrow> Obj (toRaw_loop [] ps [])
           | Arr vs \<Rightarrow>
               Arr (map (\<lambda>each. case each of Inst ps \<Rightarrow> Obj (toRaw_loop [] ps []) | _ \<Rightarrow> each) vs)
           | _ \<Rightarrow> val)
          raw))"

definition toRaw :: "string list \<Rightarrow> props \<Rightarrow> props" where
  "toRaw exclude this = toRaw_loop exclude this []"

subsection \<open>fromRaw\<close>

text \<open>
  An entity is an instance of the class: its own properties and its prototype. The
  prototype is that of the entity's class (with the accessor \<^verbatim>\<open>type\<close> and the methods
  of \<^verbatim>\<open>Serializable\<close>, above \<^verbatim>\<open>Object.prototype\<close>) until an assignment replaces
  it by a value. \<open>entity_with ps\<close> is an instance as the class makes it, with the own
  properties \<open>ps\<close>; \<open>new_Serializable\<close> is the instance a constructor without arguments
  returns. The instances that occur as values (\<open>Inst\<close>) have the prototype of the base
  class.
\<close>

datatype prototype = Class_prototype | Replaced jsval

record entity =
  own :: props
  proto :: prototype

definition entity_with :: "props \<Rightarrow> entity" where
  "entity_with ps = \<lparr>own = ps, proto = Class_prototype\<rparr>"

definition new_Serializable :: entity where
  "new_Serializable = entity_with []"

text \<open>
  A method that changes \<^verbatim>\<open>this\<close> returns how it completed together with the state
  \<^verbatim>\<open>this\<close> has afterwards; \<open>Normal\<close> stands for \<^verbatim>\<open>return this\<close>.
\<close>

datatype completion = Normal | Throw error

text \<open>Array indices and string indices as property names: the decimal numeral.\<close>

fun decimal :: "nat \<Rightarrow> string" where
  "decimal n =
     (if n < 10 then [''0123456789'' ! n] else decimal (n div 10) @ [''0123456789'' ! (n mod 10)])"

declare decimal.simps [simp del]

text \<open>
  The own enumerable properties \<^verbatim>\<open>Object.assign\<close> reads from its source: those of an
  object, the elements of an array and the characters of a string under their indices,
  none for the other scalars.
\<close>

fun ownEntries :: "jsval \<Rightarrow> props" where
  "ownEntries (Obj ps) = ps"
| "ownEntries (Inst ps) = ps"
| "ownEntries (Arr vs) = zip (map decimal [0..<length vs]) vs"
| "ownEntries (Str s) = zip (map decimal [0..<length s]) (map (\<lambda>c. Str [c]) s)"
| "ownEntries v = []"

text \<open>
  \<^verbatim>\<open>Object.assign(this, raw)\<close> assigns the properties one after the other, each with
  the semantics of \<^verbatim>\<open>this[key] = val\<close>. A name that is an own property is overwritten.
  For any other name the assignment looks along the prototype chain, and two inherited
  accessors decide otherwise than by creating an own property:
  \<^item> the class declares \<^verbatim>\<open>get type()\<close> and no setter, so assigning to \<^verbatim>\<open>type\<close>
    throws a \<^verbatim>\<open>TypeError\<close>, the properties assigned before staying assigned;
  \<^item> \<^verbatim>\<open>Object.prototype\<close> has the accessor \<^verbatim>\<open>__proto__\<close>, whose setter replaces
    the prototype when the value is an object or \<^verbatim>\<open>null\<close> and does nothing otherwise;
    no own property is created.
  An own data property of a replaced prototype hides the accessor behind it, and a
  \<^verbatim>\<open>null\<close> prototype has no chain. Every other name becomes an own data property.
\<close>

datatype inherited = Getter_only | Proto_setter | Data_or_absent

definition class_inherited :: "string \<Rightarrow> inherited" where
  "class_inherited key =
     (if key = ''type'' then Getter_only
      else if key = ''__proto__'' then Proto_setter
      else Data_or_absent)"

fun lookup_inherited :: "prototype \<Rightarrow> string \<Rightarrow> inherited" where
  "lookup_inherited Class_prototype key = class_inherited key"
| "lookup_inherited (Replaced (Inst ps)) key =
     (if hasOwnProperty ps key then Data_or_absent else class_inherited key)"
| "lookup_inherited (Replaced (Obj ps)) key =
     (if hasOwnProperty ps key then Data_or_absent
      else if key = ''__proto__'' then Proto_setter
      else Data_or_absent)"
| "lookup_inherited (Replaced (Arr vs)) key =
     (if key = ''__proto__'' then Proto_setter else Data_or_absent)"
| "lookup_inherited (Replaced v) key = Data_or_absent"

fun isObject :: "jsval \<Rightarrow> bool" where
  "isObject (Obj ps) = True"
| "isObject (Inst ps) = True"
| "isObject (Arr vs) = True"
| "isObject v = False"

fun Object_assign_loop :: "entity \<Rightarrow> props \<Rightarrow> completion \<times> entity" where
  "Object_assign_loop this [] = (Normal, this)"
| "Object_assign_loop this ((key, val) # entries) =
     (if hasOwnProperty (own this) key
      then Object_assign_loop (this\<lparr>own := setProp key val (own this)\<rparr>) entries
      else case lookup_inherited (proto this) key of
             Getter_only \<Rightarrow> (Throw TypeError, this)
           | Proto_setter \<Rightarrow>
               Object_assign_loop
                 (if isObject val \<or> val = Null then this\<lparr>proto := Replaced val\<rparr> else this) entries
           | Data_or_absent \<Rightarrow>
               Object_assign_loop (this\<lparr>own := setProp key val (own this)\<rparr>) entries)"

definition Object_assign :: "entity \<Rightarrow> jsval \<Rightarrow> completion \<times> entity" where
  "Object_assign this source = Object_assign_loop this (ownEntries source)"

text \<open>
  \<^verbatim>\<open>validate()\<close> is meant to be overridden; the model takes the implementation of the
  entity's class as a parameter, a function of the entity's own properties that returns
  a truth value or throws. The base class returns \<^verbatim>\<open>true\<close>. The call
  \<^verbatim>\<open>this.validate()\<close> looks the method up on the instance first and along the
  prototype chain then: an own property of that name holds data, and calling it throws a
  \<^verbatim>\<open>TypeError\<close>, as does calling a method that is not there. Behind a replaced
  prototype that is an instance, the method found is that of the base class.
\<close>

type_synonym validator = "props \<Rightarrow> error + bool"

definition validate :: validator where
  "validate this = Inr True"

definition call_validate :: "validator \<Rightarrow> entity \<Rightarrow> error + bool" where
  "call_validate v this =
     (if hasOwnProperty (own this) ''validate'' then Inl TypeError
      else case proto this of
             Class_prototype \<Rightarrow> v (own this)
           | Replaced (Inst ps) \<Rightarrow>
               if hasOwnProperty ps ''validate'' then Inl TypeError else validate (own this)
           | Replaced val \<Rightarrow> Inl TypeError)"

text \<open>
  \<^verbatim>\<open>fromRaw(raw)\<close>: the assignment stands before the \<^verbatim>\<open>try\<close> block, so what it
  throws leaves the method as it is. Inside the block a false result throws
  \<^verbatim>\<open>ENCODING_ERROR\<close>, and the \<^verbatim>\<open>catch\<close> branch turns whatever was thrown into
  \<^verbatim>\<open>ENCODING_ERROR\<close>.
\<close>

definition fromRaw :: "validator \<Rightarrow> entity \<Rightarrow> jsval \<Rightarrow> completion \<times> entity" where
  "fromRaw v this raw =
     (case Object_assign this raw of
        (Throw e, this') \<Rightarrow> (Throw e, this')
      | (Normal, this') \<Rightarrow>
          (case call_validate v this' of
             Inr True \<Rightarrow> (Normal, this')
           | Inr False \<Rightarrow> (Throw (Err ENCODING_ERROR), this')
           | Inl e \<Rightarrow> (Throw (Err ENCODING_ERROR), this')))"

subsection \<open>The functions of the host\<close>

text \<open>
  \<^verbatim>\<open>JSON.stringify\<close>, \<^verbatim>\<open>JSON.parse\<close>, \<^verbatim>\<open>TextEncoder.encode\<close> and
  \<^verbatim>\<open>TextDecoder.decode\<close> belong to the platform, not to the repository. The model
  takes them as a parameter: what the module does with their results and their exceptions
  is proved for every host.
\<close>

record host =
  JSON_stringify :: "jsval \<Rightarrow> error + string"
  JSON_parse :: "string \<Rightarrow> error + jsval"
  TextEncoder_encode :: "string \<Rightarrow> error + byte list"
  TextDecoder_decode :: "byte list \<Rightarrow> error + string"

text \<open>The wrappers of the module: whatever the host throws becomes \<^verbatim>\<open>ENCODING_ERROR\<close>.\<close>

definition marshal :: "host \<Rightarrow> jsval \<Rightarrow> error + string" where
  "marshal h obj =
     (case JSON_stringify h obj of Inl e \<Rightarrow> Inl (Err ENCODING_ERROR) | Inr str \<Rightarrow> Inr str)"

definition unmarshal :: "host \<Rightarrow> string \<Rightarrow> error + jsval" where
  "unmarshal h str =
     (case JSON_parse h str of Inl e \<Rightarrow> Inl (Err ENCODING_ERROR) | Inr obj \<Rightarrow> Inr obj)"



subsection \<open>The conversions built on toRaw and fromRaw\<close>


definition fromJSON :: "host \<Rightarrow> validator \<Rightarrow> entity \<Rightarrow> string \<Rightarrow> completion \<times> entity" where
  "fromJSON h v this json =
     (case JSON_parse h json of
        Inl e \<Rightarrow> (Throw e, this)
      | Inr raw \<Rightarrow> fromRaw v this raw)"




section \<open>A reference host\<close>

text \<open>
  To evaluate the conversions on concrete entities the host functions need values. The
  reference host implements them on a fragment: JSON text over integers, strings of code
  units below 256, arrays and objects, and UTF-8 for the same code units. Outside the
  fragment (a number with a fraction or an exponent, an escape or a byte sequence for a
  code unit from 256 on, a value without JSON text at the top) it reports an error. It is
  used for the concrete examples only; the general theorems hold for every host.
\<close>

definition escapeChar :: "char \<Rightarrow> string" where
  "escapeChar c =
     (let n = of_char c :: nat in
      if n = 34 then [CHR 0x5C, CHR 0x22]
      else if n = 92 then [CHR 0x5C, CHR 0x5C]
      else if n = 8 then [CHR 0x5C, CHR ''b'']
      else if n = 9 then [CHR 0x5C, CHR ''t'']
      else if n = 10 then [CHR 0x5C, CHR ''n'']
      else if n = 12 then [CHR 0x5C, CHR ''f'']
      else if n = 13 then [CHR 0x5C, CHR ''r'']
      else if n < 32 then [CHR 0x5C, CHR ''u'', CHR ''0'', CHR ''0'', hexDigit (n div 16), hexDigit (n mod 16)]
      else [c])"

definition quoteJSON :: "string \<Rightarrow> string" where
  "quoteJSON str = [CHR 0x22] @ concat (map escapeChar str) @ [CHR 0x22]"

definition showInt :: "int \<Rightarrow> string" where
  "showInt n = (if n < 0 then ''-'' @ decimal (nat (- n)) else decimal (nat n))"

fun commaSep :: "string list \<Rightarrow> string" where
  "commaSep [] = []"
| "commaSep [x] = x"
| "commaSep (x # y # zs) = x @ '','' @ commaSep (y # zs)"

text \<open>
  \<^verbatim>\<open>JSON.stringify\<close> calls the method \<^verbatim>\<open>toJSON\<close> of a value that has one and
  writes what it returns. An instance of the class has one: it returns the string
  \<^verbatim>\<open>JSON.stringify(this.toRaw())\<close>, and that string is written as a JSON string. The
  first argument bounds the nesting of such calls.
\<close>

fun countInstances :: "jsval \<Rightarrow> nat" where
  "countInstances (Inst ps) = Suc (sum_list (map (\<lambda>(k, v). countInstances v) ps))"
| "countInstances (Obj ps) = sum_list (map (\<lambda>(k, v). countInstances v) ps)"
| "countInstances (Arr vs) = sum_list (map countInstances vs)"
| "countInstances v = 0"

fun serialize :: "nat \<Rightarrow> jsval \<Rightarrow> string option" where
  "serialize n Undefined = None"
| "serialize n Null = Some ''null''"
| "serialize n (Bool b) = Some (if b then ''true'' else ''false'')"
| "serialize n (Num k) = Some (showInt k)"
| "serialize n (Str s) = Some (quoteJSON s)"
| "serialize n (Arr vs) =
     Some (''['' @ commaSep (map (\<lambda>v. case serialize n v of None \<Rightarrow> ''null'' | Some t \<Rightarrow> t) vs) @ '']'')"
| "serialize n (Obj ps) =
     Some (''{'' @ commaSep (concat (map (\<lambda>(k, v). case serialize n v of
                                                  None \<Rightarrow> []
                                                | Some t \<Rightarrow> [quoteJSON k @ '':'' @ t]) ps)) @ ''}'')"
| "serialize 0 (Inst ps) = None"
| "serialize (Suc n) (Inst ps) =
     (case serialize n (Obj (toRaw [] ps)) of
        None \<Rightarrow> None
      | Some json \<Rightarrow> Some (quoteJSON json))"

definition ref_stringify :: "jsval \<Rightarrow> error + string" where
  "ref_stringify v =
     (case serialize (countInstances v) v of None \<Rightarrow> Inl TypeError | Some t \<Rightarrow> Inr t)"

definition jsonWhiteSpace :: "char \<Rightarrow> bool" where
  "jsonWhiteSpace c = (of_char c \<in> {9, 10, 13, 32 :: nat})"

definition unescape :: "char \<Rightarrow> char option" where
  "unescape e =
     (if e = CHR 0x22 \<or> e = CHR 0x5C \<or> e = CHR ''/'' then Some e
      else if e = CHR ''b'' then Some (CHR 0x08)
      else if e = CHR ''f'' then Some (CHR 0x0C)
      else if e = CHR ''n'' then Some (CHR 0x0A)
      else if e = CHR ''r'' then Some (CHR 0x0D)
      else if e = CHR ''t'' then Some (CHR 0x09)
      else None)"

fun parseString :: "string \<Rightarrow> (string \<times> string) option" where
  "parseString [] = None"
| "parseString (c # cs) =
     (if c = CHR 0x22 then Some ([], cs)
      else if (of_char c :: nat) < 32 then None
      else if c = CHR 0x5C then
        (case cs of
           [] \<Rightarrow> None
         | e # r \<Rightarrow>
             if e = CHR ''u'' then
               (if 4 \<le> length r \<and> list_all isHexDigit (take 4 r) \<and> hexNumber (take 4 r) < 256
                then map_option (\<lambda>(s, rest). (char_of (hexNumber (take 4 r)) # s, rest))
                       (parseString (drop 4 r))
                else None)
             else (case unescape e of
                     None \<Rightarrow> None
                   | Some ch \<Rightarrow> map_option (\<lambda>(s, rest). (ch # s, rest)) (parseString r)))
      else map_option (\<lambda>(s, rest). (c # s, rest)) (parseString cs))"

definition isDigit :: "char \<Rightarrow> bool" where
  "isDigit c = (48 \<le> (of_char c :: nat) \<and> (of_char c :: nat) \<le> 57)"

definition decimalNumber :: "string \<Rightarrow> nat" where
  "decimalNumber z = foldl (\<lambda>acc c. 10 * acc + (of_char c - 48)) 0 z"

definition parseDigits :: "string \<Rightarrow> (nat \<times> string) option" where
  "parseDigits s =
     (case s of
        [] \<Rightarrow> None
      | c # r \<Rightarrow>
          if c = CHR ''0'' then Some (0, r)
          else if isDigit c then Some (decimalNumber (takeWhile isDigit s), dropWhile isDigit s)
          else None)"

definition parseNumber :: "string \<Rightarrow> (int \<times> string) option" where
  "parseNumber s =
     (case (case s of c # r \<Rightarrow> if c = CHR ''-'' then map_option (\<lambda>(n, rest). (- int n, rest)) (parseDigits r)
                               else map_option (\<lambda>(n, rest). (int n, rest)) (parseDigits s)
                   | [] \<Rightarrow> None) of
        None \<Rightarrow> None
      | Some (n, rest) \<Rightarrow>
          (case rest of
             c # _ \<Rightarrow> if c = CHR ''.'' \<or> c = CHR ''e'' \<or> c = CHR ''E'' then None else Some (n, rest)
           | [] \<Rightarrow> Some (n, rest)))"

fun parseValue :: "nat \<Rightarrow> string \<Rightarrow> (jsval \<times> string) option"
  and parseElements :: "nat \<Rightarrow> string \<Rightarrow> (jsval list \<times> string) option"
  and parseMembers :: "nat \<Rightarrow> string \<Rightarrow> (props \<times> string) option" where
  "parseValue 0 s = None"
| "parseValue (Suc n) s =
     (case dropWhile jsonWhiteSpace s of
        [] \<Rightarrow> None
      | c # cs \<Rightarrow>
          if c = CHR ''['' then
            (case dropWhile jsonWhiteSpace cs of
               [] \<Rightarrow> None
             | d # r \<Rightarrow> if d = CHR '']'' then Some (Arr [], r)
                        else map_option (\<lambda>(vs, rest). (Arr vs, rest)) (parseElements n cs))
          else if c = CHR ''{'' then
            (case dropWhile jsonWhiteSpace cs of
               [] \<Rightarrow> None
             | d # r \<Rightarrow> if d = CHR ''}'' then Some (Obj [], r)
                        else map_option (\<lambda>(ps, rest). (Obj (foldl (\<lambda>obj (k, v). setProp k v obj) [] ps), rest))
                               (parseMembers n cs))
          else if c = CHR 0x22 then map_option (\<lambda>(str, rest). (Str str, rest)) (parseString cs)
          else if startsWith (c # cs) ''null'' then Some (Null, drop 4 (c # cs))
          else if startsWith (c # cs) ''true'' then Some (Bool True, drop 4 (c # cs))
          else if startsWith (c # cs) ''false'' then Some (Bool False, drop 5 (c # cs))
          else map_option (\<lambda>(k, rest). (Num k, rest)) (parseNumber (c # cs)))"
| "parseElements 0 s = None"
| "parseElements (Suc n) s =
     (case parseValue n s of
        None \<Rightarrow> None
      | Some (v, rest) \<Rightarrow>
          (case dropWhile jsonWhiteSpace rest of
             [] \<Rightarrow> None
           | c # r \<Rightarrow>
               if c = CHR '','' then map_option (\<lambda>(vs, rest'). (v # vs, rest')) (parseElements n r)
               else if c = CHR '']'' then Some ([v], r)
               else None))"
| "parseMembers 0 s = None"
| "parseMembers (Suc n) s =
     (case dropWhile jsonWhiteSpace s of
        [] \<Rightarrow> None
      | q # s1 \<Rightarrow>
          if q \<noteq> CHR 0x22 then None
          else
            (case parseString s1 of
               None \<Rightarrow> None
             | Some (key, s2) \<Rightarrow>
                 (case dropWhile jsonWhiteSpace s2 of
                    [] \<Rightarrow> None
                  | colon # s3 \<Rightarrow>
                      if colon \<noteq> CHR '':'' then None
                      else
                        (case parseValue n s3 of
                           None \<Rightarrow> None
                         | Some (v, rest) \<Rightarrow>
                             (case dropWhile jsonWhiteSpace rest of
                                [] \<Rightarrow> None
                              | c # r \<Rightarrow>
                                  if c = CHR '','' then
                                    map_option (\<lambda>(ps, rest'). ((key, v) # ps, rest')) (parseMembers n r)
                                  else if c = CHR ''}'' then Some ([(key, v)], r)
                                  else None)))))"

definition ref_parse :: "string \<Rightarrow> error + jsval" where
  "ref_parse text =
     (case parseValue (2 * length text + 2) text of
        None \<Rightarrow> Inl SyntaxError
      | Some (v, rest) \<Rightarrow> if dropWhile jsonWhiteSpace rest = [] then Inr v else Inl SyntaxError)"

definition ref_encode :: "string \<Rightarrow> error + byte list" where
  "ref_encode str =
     Inr (concat (map (\<lambda>c. let n = of_char c :: nat in
                            if n < 128 then [of_nat n]
                            else [of_nat (192 + n div 64), of_nat (128 + n mod 64)]) str))"

fun utf8_decode :: "byte list \<Rightarrow> string option" where
  "utf8_decode [] = Some []"
| "utf8_decode (b # bs) =
     (if unat b < 128 then map_option (\<lambda>s. char_of (unat b) # s) (utf8_decode bs)
      else if unat b = 194 \<or> unat b = 195 then
        (case bs of
           [] \<Rightarrow> None
         | c # r \<Rightarrow>
             if 128 \<le> unat c \<and> unat c < 192
             then map_option (\<lambda>s. char_of ((unat b - 192) * 64 + (unat c - 128)) # s) (utf8_decode r)
             else None)
      else None)"

definition ref_decode :: "byte list \<Rightarrow> error + string" where
  "ref_decode bytes = (case utf8_decode bytes of None \<Rightarrow> Inl RangeError | Some str \<Rightarrow> Inr str)"

definition ref_host :: host where
  "ref_host =
     \<lparr>JSON_stringify = ref_stringify, JSON_parse = ref_parse,
      TextEncoder_encode = ref_encode, TextDecoder_decode = ref_decode\<rparr>"

section \<open>Notions the statements use\<close>

text \<open>
  The value the loop of \<^verbatim>\<open>toRaw\<close> stores for a property that holds \<open>val\<close>
  (the three branches of its conditional).
\<close>

definition rawValue :: "jsval \<Rightarrow> jsval" where
  "rawValue val =
     (case val of
        Inst ps \<Rightarrow> Obj (toRaw [] ps)
      | Arr vs \<Rightarrow> Arr (map (\<lambda>each. case each of Inst ps \<Rightarrow> Obj (toRaw [] ps) | _ \<Rightarrow> each) vs)
      | _ \<Rightarrow> val)"




section \<open>Example entities\<close>







section \<open>Properties of concatBytes\<close>

lemma foldl_add_length:
  "foldl (\<lambda>len arr. len + length arr) n arrs = n + length (concat arrs)"
  by (induction arrs arbitrary: n) auto

lemma concatBytes_loop_fills:
  "offset + length (concat arrs) \<le> length res \<Longrightarrow>
   concatBytes_loop arrs res offset =
     Inr (take offset res @ concat arrs @ drop (offset + length (concat arrs)) res)"
proof (induction arrs arbitrary: res offset)
  case Nil
  then show ?case by simp
next
  case (Cons arr arrs)
  let ?res' = "take offset res @ arr @ drop (offset + length arr) res"
  from Cons.prems have fit: "offset + length arr \<le> length res" by simp
  then have set: "Uint8Array_set res arr offset = Inr ?res'"
    by (simp add: Uint8Array_set_def)
  have len: "length ?res' = length res" using fit by simp
  have "(offset + length arr) + length (concat arrs) \<le> length ?res'"
    using Cons.prems len by simp
  from Cons.IH [OF this]
  have "concatBytes_loop arrs ?res' (offset + length arr) =
      Inr (take (offset + length arr) ?res' @ concat arrs @
           drop (offset + length arr + length (concat arrs)) ?res')" .
  moreover have "take (offset + length arr) ?res' = take offset res @ arr"
    using fit by (simp add: min_absorb2)
  moreover have "drop (offset + length arr + length (concat arrs)) ?res' =
      drop (offset + length arr + length (concat arrs)) res"
    using fit by (simp add: add.commute add.left_commute)
  ultimately show ?case using set by (simp add: add.assoc)
qed

lemma concatBytes_concat: "concatBytes arrs = Inr (concat arrs)"
  by (simp add: concatBytes_def Let_def foldl_add_length concatBytes_loop_fills)

text \<open>
  Claim C8. For every list of byte arrays \<^verbatim>\<open>concatBytes\<close> returns, without error,
  their concatenation in argument order; its length is the sum of the lengths of the
  arguments; an empty array among the arguments contributes nothing; and without
  arguments the result is the empty array.
\<close>

theorem concatBytes_concatenates:
  "concatBytes arrs = Inr (concat arrs) \<and>
   length (concat arrs) = sum_list (map length arrs) \<and>
   concatBytes (xs @ [] # ys) = concatBytes (xs @ ys) \<and>
   concatBytes [] = Inr []"
  by (simp add: concatBytes_concat length_concat)

section \<open>Properties of the hexadecimal conversions\<close>

lemma hex_cases:
  "d < 16 \<Longrightarrow> d = 0 \<or> d = 1 \<or> d = 2 \<or> d = 3 \<or> d = 4 \<or> d = 5 \<or> d = 6 \<or> d = 7 \<or>
     d = 8 \<or> d = 9 \<or> d = 10 \<or> d = 11 \<or> d = 12 \<or> d = 13 \<or> d = 14 \<or> d = (15::nat)"
  by arith

lemma hexValue_hexDigit: "d < 16 \<Longrightarrow> hexValue (hexDigit d) = Some d"
  by (drule hex_cases, elim disjE) (simp_all add: hexValue_def hexDigit_def)

lemma hexDigit_plain:
  "d < 16 \<Longrightarrow> \<not> isWhiteSpace (hexDigit d) \<and> hexDigit d \<noteq> CHR ''+'' \<and> hexDigit d \<noteq> CHR ''-'' \<and>
     hexDigit d \<noteq> CHR ''x'' \<and> hexDigit d \<noteq> CHR ''X''"
  by (drule hex_cases, elim disjE) (simp_all add: isWhiteSpace_def hexDigit_def)

lemma parseInt16_two_digits:
  assumes "h < 16" "l < 16"
  shows "parseInt16 [hexDigit h, hexDigit l] = Some (int (16 * h + l))"
  using hexValue_hexDigit [OF assms(1)] hexValue_hexDigit [OF assms(2)]
    hexDigit_plain [OF assms(1)] hexDigit_plain [OF assms(2)]
  by (simp add: parseInt16_def Let_def isHexDigit_def hexNumber_def)


lemma hexToBytes_loop_eq:
  "i \<le> length bytes \<Longrightarrow>
   hexToBytes_loop str i bytes =
     take i bytes @
     map (\<lambda>j. ToUint8 (parseInt16 (substring str (j * 2) (j * 2 + 2)))) [i..<length bytes]"
proof (induction str i bytes rule: hexToBytes_loop.induct)
  case (1 str i bytes)
  show ?case
  proof (cases "i < length bytes")
    case True
    let ?v = "ToUint8 (parseInt16 (substring str (i * 2) (i * 2 + 2)))"
    have "hexToBytes_loop str i bytes = hexToBytes_loop str (i + 1) (bytes[i := ?v])"
      using True by (subst hexToBytes_loop.simps) simp
    also have "\<dots> = take (i + 1) (bytes[i := ?v]) @
        map (\<lambda>j. ToUint8 (parseInt16 (substring str (j * 2) (j * 2 + 2))))
          [i + 1..<length (bytes[i := ?v])]"
      using True by (intro "1.IH") simp_all
    also have "take (i + 1) (bytes[i := ?v]) = take i bytes @ [?v]"
      using True by (simp add: take_Suc_conv_app_nth)
    finally show ?thesis
      using True by (simp add: upt_conv_Cons)
  next
    case False
    with "1.prems" show ?thesis by (subst hexToBytes_loop.simps) simp
  qed
qed

lemma hexToBytes_map:
  "hexToBytes str =
     Inr (map (\<lambda>j. ToUint8 (parseInt16 (substring str (j * 2) (j * 2 + 2)))) [0..<length str div 2])"
  by (simp add: hexToBytes_def hexToBytes_loop_eq)

lemma Number_toString16_small: "n < 16 \<Longrightarrow> Number_toString16 n = [hexDigit n]"
  by (subst Number_toString16.simps) simp

lemma Number_toString16_byte:
  "16 \<le> n \<Longrightarrow> n < 256 \<Longrightarrow> Number_toString16 n = [hexDigit (n div 16), hexDigit (n mod 16)]"
proof -
  assume a: "16 \<le> n" "n < 256"
  then have "n div 16 < 16" by simp
  then have "Number_toString16 (n div 16) = [hexDigit (n div 16)]"
    by (rule Number_toString16_small)
  then show ?thesis using a by (subst Number_toString16.simps) simp
qed

lemma unat_byte_less: "unat (b :: byte) < 256"
  using unsigned_less [of b] by simp

lemma padded_toString16:
  "(let s = Number_toString16 (unat (b :: byte)) in if length s = 1 then ''0'' @ s else s) = twoHexDigits b"
proof (cases "unat b < 16")
  case True
  then show ?thesis
    by (drule_tac hex_cases, elim disjE) (simp_all add: Number_toString16_small twoHexDigits_def hexDigit_def)
next
  case False
  then have "Number_toString16 (unat b) = [hexDigit (unat b div 16), hexDigit (unat b mod 16)]"
    using unat_byte_less [of b] by (intro Number_toString16_byte) simp_all
  then show ?thesis by (simp add: twoHexDigits_def Let_def)
qed

lemma bytesToHex_loop_eq: "bytesToHex_loop bytes str = str @ concat (map twoHexDigits bytes)"
proof (induction bytes arbitrary: str)
  case Nil
  then show ?case by simp
next
  case (Cons b bytes)
  have "bytesToHex_loop (b # bytes) str = bytesToHex_loop bytes (str @ twoHexDigits b)"
    using padded_toString16 [of b] by (simp add: Let_def)
  then show ?case by (simp add: Cons.IH)
qed

lemma length_hex: "length (concat (map twoHexDigits bytes)) = 2 * length bytes"
  by (induction bytes) (simp_all add: twoHexDigits_def)

lemma substring_hex:
  "j < length bytes \<Longrightarrow>
   substring (concat (map twoHexDigits bytes)) (j * 2) (j * 2 + 2) = twoHexDigits (bytes ! j)"
proof (induction bytes arbitrary: j)
  case Nil
  then show ?case by simp
next
  case (Cons b bytes)
  show ?case
  proof (cases j)
    case 0
    then show ?thesis
      by (simp add: substring_def Let_def length_hex twoHexDigits_def)
  next
    case (Suc k)
    with Cons.prems have k: "k < length bytes" by simp
    have "substring (concat (map twoHexDigits (b # bytes))) (j * 2) (j * 2 + 2) =
        substring (concat (map twoHexDigits bytes)) (k * 2) (k * 2 + 2)"
      using k Suc by (simp add: substring_def Let_def length_hex twoHexDigits_def)
    then show ?thesis using Cons.IH [OF k] Suc by simp
  qed
qed

lemma decode_twoHexDigits: "ToUint8 (parseInt16 (twoHexDigits b)) = b"
proof -
  have "unat b div 16 < 16" using unat_byte_less [of b] by simp
  moreover have "unat b mod 16 < 16" by simp
  ultimately have "parseInt16 (twoHexDigits b) = Some (int (16 * (unat b div 16) + unat b mod 16))"
    unfolding twoHexDigits_def by (rule parseInt16_two_digits)
  then have "parseInt16 (twoHexDigits b) = Some (int (unat b))" by simp
  then show ?thesis by (simp add: ToUint8_def)
qed

lemma hexToBytes_hex: "hexToBytes (concat (map twoHexDigits bytes)) = Inr bytes"
proof -
  have "map (\<lambda>j. ToUint8 (parseInt16 (substring (concat (map twoHexDigits bytes)) (j * 2) (j * 2 + 2))))
          [0..<length bytes] = map (\<lambda>j. bytes ! j) [0..<length bytes]"
  proof (rule map_cong [OF refl])
    fix j assume "j \<in> set [0..<length bytes]"
    then have "j < length bytes" by simp
    from substring_hex [OF this] show
      "ToUint8 (parseInt16 (substring (concat (map twoHexDigits bytes)) (j * 2) (j * 2 + 2))) = bytes ! j"
      by (simp only: decode_twoHexDigits)
  qed
  then show ?thesis
    by (simp add: hexToBytes_map length_hex map_nth)
qed

lemma hexDigit_char_plain:
  "isHexDigit c \<Longrightarrow> \<not> isWhiteSpace c \<and> c \<noteq> CHR ''+'' \<and> c \<noteq> CHR ''-'' \<and> c \<noteq> CHR ''x'' \<and> c \<noteq> CHR ''X''"
  by (auto simp: isHexDigit_def hexValue_def isWhiteSpace_def Let_def split: if_splits)

lemma parseInt16_pair:
  assumes "isHexDigit c" and "isHexDigit d"
  shows "parseInt16 [c, d] = Some (int (16 * the (hexValue c) + the (hexValue d)))"
  using assms hexDigit_char_plain [OF assms(1)] hexDigit_char_plain [OF assms(2)]
  by (simp add: parseInt16_def Let_def hexNumber_def)

lemma substring_pair:
  "j < length str div 2 \<Longrightarrow> substring str (j * 2) (j * 2 + 2) = [str ! (j * 2), str ! (j * 2 + 1)]"
proof -
  assume "j < length str div 2"
  then have l: "j * 2 + 2 \<le> length str" by simp
  then have "take 2 (drop (j * 2) str) = [drop (j * 2) str ! 0, drop (j * 2) str ! 1]"
    by (simp add: take_Suc_conv_app_nth numeral_2_eq_2)
  with l show ?thesis by (simp add: substring_def Let_def min_absorb1 max_absorb2 add.commute)
qed

lemma hexToBytes_wellformed:
  assumes "list_all isHexDigit str"
  shows "hexToBytes str =
     Inr (map (\<lambda>j. word_of_nat (16 * the (hexValue (str ! (j * 2))) + the (hexValue (str ! (j * 2 + 1)))))
            [0..<length str div 2])"
proof -
  have "ToUint8 (parseInt16 (substring str (j * 2) (j * 2 + 2))) =
      word_of_nat (16 * the (hexValue (str ! (j * 2))) + the (hexValue (str ! (j * 2 + 1))))"
    if "j < length str div 2" for j
  proof -
    from that have "j * 2 < length str" and "j * 2 + 1 < length str" by simp_all
    with assms have "isHexDigit (str ! (j * 2))" and "isHexDigit (str ! (j * 2 + 1))"
      by (simp_all add: list_all_length)
    then show ?thesis
      using that by (simp only: substring_pair parseInt16_pair) (simp add: ToUint8_def)
  qed
  then show ?thesis by (simp add: hexToBytes_map)
qed

text \<open>
  Claim C6. \<^verbatim>\<open>bytesToHex\<close> returns, for every byte array, the text that holds for
  each byte its two lower-case hexadecimal digits, the high digit first (a zero when the
  byte is below 16); and \<^verbatim>\<open>hexToBytes\<close> applied to that text returns the byte array.
\<close>

theorem hexToBytes_bytesToHex:
  "\<exists>str. bytesToHex bytes = Inr str \<and>
         str = concat (map twoHexDigits bytes) \<and>
         length str = 2 * length bytes \<and>
         hexToBytes str = Inr bytes"
  by (simp add: bytesToHex_def bytesToHex_loop_eq length_hex hexToBytes_hex)

text \<open>
  Claim C3. The code does not reject malformed input: \<^verbatim>\<open>hexToBytes\<close> returns for
  every string. A pair without a hexadecimal digit at its start becomes the byte 0, a pair
  with one digit followed by another character becomes that digit, and the last character
  of a string of odd length is dropped.
\<close>

theorem hexToBytes_accepts_malformed:
  "hexToBytes ''zz'' = Inr [0] \<and> hexToBytes ''1g'' = Inr [1] \<and> hexToBytes ''abc'' = Inr [0xAB]"
  by (simp add: hexToBytes_map substring_def parseInt16_def Let_def isWhiteSpace_def
      isHexDigit_def hexValue_def hexNumber_def ToUint8_def)

section \<open>Properties of toRaw and fromRaw\<close>


lemma map_of_setProp: "map_of (setProp key val obj) = (map_of obj)(key \<mapsto> val)"
  by (simp add: setProp_def update_conv')

lemma keys_setProp: "fst ` set (setProp key val obj) = insert key (fst ` set obj)"
  using dom_update [of key val obj] by (simp add: setProp_def)

lemma toRaw_loop_Cons:
  "toRaw_loop exclude ((prop, val) # entries) raw =
     (if startsWith prop ''_'' \<or> prop \<in> set exclude then toRaw_loop exclude entries raw
      else toRaw_loop exclude entries (setProp prop (rawValue val) raw))"
  unfolding rawValue_def toRaw_def by simp

lemma keys_toRaw_loop:
  "fst ` set (toRaw_loop exclude entries raw) =
     fst ` set raw \<union> {k \<in> fst ` set entries. \<not> startsWith k ''_'' \<and> k \<notin> set exclude}"
proof (induction entries arbitrary: raw)
  case Nil
  then show ?case by simp
next
  case (Cons e entries)
  obtain p val where e: "e = (p, val)" by (cases e)
  show ?case
  proof (cases "startsWith p ''_'' \<or> p \<in> set exclude")
    case True
    then have "toRaw_loop exclude (e # entries) raw = toRaw_loop exclude entries raw"
      by (simp add: e toRaw_loop_Cons del: toRaw_loop.simps)
    with True show ?thesis by (auto simp: Cons.IH e)
  next
    case False
    then have "toRaw_loop exclude (e # entries) raw =
        toRaw_loop exclude entries (setProp p (rawValue val) raw)"
      by (simp add: e toRaw_loop_Cons del: toRaw_loop.simps)
    with False show ?thesis by (auto simp: Cons.IH keys_setProp e)
  qed
qed






lemma lookup_inherited_ordinary:
  "key \<noteq> ''type'' \<Longrightarrow> key \<noteq> ''__proto__'' \<Longrightarrow> lookup_inherited p key = Data_or_absent"
  by (cases "(p, key)" rule: lookup_inherited.cases) (simp_all add: class_inherited_def)

lemma lookup_inherited_Getter: "lookup_inherited p key = Getter_only \<Longrightarrow> key = ''type''"
  using lookup_inherited_ordinary [of key p]
  by (cases "(p, key)" rule: lookup_inherited.cases) (auto simp: class_inherited_def split: if_splits)

lemma lookup_inherited_Setter: "lookup_inherited p key = Proto_setter \<Longrightarrow> key = ''__proto__''"
  by (cases "(p, key)" rule: lookup_inherited.cases) (auto simp: class_inherited_def split: if_splits)

lemma assign_loop_Cons_Normal:
  assumes "Object_assign_loop this ((key, val) # entries) = (Normal, this')"
  shows "\<exists>this1. Object_assign_loop this1 entries = (Normal, this') \<and>
      (\<forall>k. k \<noteq> key \<longrightarrow> map_of (own this1) k = map_of (own this) k) \<and>
      (key \<noteq> ''__proto__'' \<longrightarrow> map_of (own this1) key = Some val)"
proof (cases "hasOwnProperty (own this) key")
  case True
  with assms have "Object_assign_loop (this\<lparr>own := setProp key val (own this)\<rparr>) entries = (Normal, this')"
    by simp
  then show ?thesis by (intro exI [of _ "this\<lparr>own := setProp key val (own this)\<rparr>"]) (simp add: map_of_setProp)
next
  case False
  show ?thesis
  proof (cases "lookup_inherited (proto this) key")
    case Getter_only
    with False assms show ?thesis by simp
  next
    case Proto_setter
    let ?this1 = "if isObject val \<or> val = Null then this\<lparr>proto := Replaced val\<rparr> else this"
    from Proto_setter False assms have "Object_assign_loop ?this1 entries = (Normal, this')"
      by simp
    moreover have "key = ''__proto__''" using Proto_setter by (rule lookup_inherited_Setter)
    moreover have "own ?this1 = own this" by simp
    ultimately show ?thesis by (intro exI [of _ ?this1]) simp
  next
    case Data_or_absent
    with False assms
    have "Object_assign_loop (this\<lparr>own := setProp key val (own this)\<rparr>) entries = (Normal, this')"
      by simp
    then show ?thesis by (intro exI [of _ "this\<lparr>own := setProp key val (own this)\<rparr>"]) (simp add: map_of_setProp)
  qed
qed

lemma assign_loop_preserves:
  "Object_assign_loop this entries = (Normal, this') \<Longrightarrow> key \<notin> fst ` set entries \<Longrightarrow>
   map_of (own this') key = map_of (own this) key"
proof (induction entries arbitrary: this)
  case Nil
  then show ?case by simp
next
  case (Cons e entries)
  obtain k val where e: "e = (k, val)" by (cases e)
  from Cons.prems(1) obtain this1 where
    1: "Object_assign_loop this1 entries = (Normal, this')"
    and 2: "\<forall>j. j \<noteq> k \<longrightarrow> map_of (own this1) j = map_of (own this) j"
    unfolding e by (blast dest: assign_loop_Cons_Normal)
  from Cons.prems(2) have "key \<noteq> k" and "key \<notin> fst ` set entries" by (auto simp: e)
  with Cons.IH [OF 1] 2 show ?case by simp
qed

lemma assign_loop_distinct_lookup:
  assumes "Object_assign_loop this entries = (Normal, this')"
    and "distinct (map fst entries)" and "(key, val) \<in> set entries" and "key \<noteq> ''__proto__''"
  shows "map_of (own this') key = Some val"
  using assms
proof (induction entries arbitrary: this)
  case Nil
  then show ?case by simp
next
  case (Cons e entries)
  obtain k x where e: "e = (k, x)" by (cases e)
  from Cons.prems(1) obtain this1 where
    1: "Object_assign_loop this1 entries = (Normal, this')"
    and 3: "k \<noteq> ''__proto__'' \<longrightarrow> map_of (own this1) k = Some x"
    unfolding e by (blast dest: assign_loop_Cons_Normal)
  have fresh: "k \<notin> fst ` set entries" using Cons.prems(2) by (auto simp: e)
  show ?case
  proof (cases "key = k")
    case True
    with fresh have "(key, val) \<notin> set entries" by (auto simp: image_iff)
    with Cons.prems(3) True have "val = x" by (simp add: e)
    from assign_loop_preserves [OF 1 fresh] 3 True Cons.prems(4) \<open>val = x\<close> show ?thesis by simp
  next
    case False
    with Cons.prems(3) have "(key, val) \<in> set entries" by (simp add: e)
    moreover have "distinct (map fst entries)" using Cons.prems(2) by simp
    ultimately show ?thesis using Cons.IH [OF 1] Cons.prems(4) by simp
  qed
qed

lemma assign_loop_Throw:
  "Object_assign_loop this entries = (Throw err, this') \<Longrightarrow>
   err = TypeError \<and> ''type'' \<in> fst ` set entries"
proof (induction entries arbitrary: this)
  case Nil
  then show ?case by simp
next
  case (Cons e entries)
  obtain key val where e: "e = (key, val)" by (cases e)
  show ?case
  proof (cases "\<not> hasOwnProperty (own this) key \<and> lookup_inherited (proto this) key = Getter_only")
    case True
    then have "key = ''type''" by (blast dest: lookup_inherited_Getter)
    with True Cons.prems show ?thesis by (simp add: e)
  next
    case False
    with Cons.prems obtain this1 where "Object_assign_loop this1 entries = (Throw err, this')"
      by (auto simp: e split: if_splits inherited.splits)
    from Cons.IH [OF this] show ?thesis by simp
  qed
qed


lemma fromRaw_cases:
  "fromRaw v this raw =
     (case Object_assign this raw of
        (Throw e, this') \<Rightarrow> (Throw e, this')
      | (Normal, this') \<Rightarrow>
          (if call_validate v this' = Inr True then (Normal, this') else (Throw (Err ENCODING_ERROR), this')))"
  by (auto simp: fromRaw_def split: prod.splits completion.splits sum.splits bool.splits)

lemma fromRaw_validated:
  "fromRaw v this raw = (Normal, this') \<Longrightarrow>
   Object_assign this raw = (Normal, this') \<and> call_validate v this' = Inr True"
  by (auto simp: fromRaw_cases split: prod.splits completion.splits if_splits)

lemma call_validate_class:
  "proto this = Class_prototype \<Longrightarrow> \<not> hasOwnProperty (own this) ''validate'' \<Longrightarrow>
   call_validate v this = v (own this)"
  by (simp add: call_validate_def)

lemma fromRaw_Throw:
  "fromRaw v this raw = (Throw err, this') \<Longrightarrow>
   err = Err ENCODING_ERROR \<or> err = TypeError \<and> ''type'' \<in> fst ` set (ownEntries raw)"
  by (auto simp: fromRaw_cases Object_assign_def split: prod.splits completion.splits if_splits
      dest: assign_loop_Throw)




lemma fromJSON_parse_error:
  "JSON_parse h json = Inl e \<Longrightarrow>
   fromJSON h v this json = (Throw e, this) \<and> unmarshal h json = Inl (Err ENCODING_ERROR)"
  by (simp add: fromJSON_def unmarshal_def)

lemma fromJSON_parsed:
  "JSON_parse h json = Inr raw \<Longrightarrow>
   fromJSON h v this json = fromRaw v this raw \<and> unmarshal h json = Inr raw"
  by (simp add: fromJSON_def unmarshal_def)

section \<open>The claims\<close>





text \<open>
  Claim C10, as stated, fails for one name that starts with the underscore. The key
  \<^verbatim>\<open>__proto__\<close> of a raw value (an own property, as \<^verbatim>\<open>JSON.parse\<close> creates it) is
  handed by the assignment to the accessor of \<^verbatim>\<open>Object.prototype\<close>, which ignores a
  number: \<^verbatim>\<open>fromRaw\<close> returns and the entity has no such property.
\<close>

theorem fromRaw_proto_key_counterexample:
  "fromRaw validate new_Serializable (Obj [(''__proto__'', Num 5)]) = (Normal, new_Serializable) \<and>
   startsWith ''__proto__'' ''_'' \<and>
   map_of (own new_Serializable) ''__proto__'' = None"
  by code_simp

text \<open>
  Claim C10, amended. When \<^verbatim>\<open>fromRaw\<close> returns, every property of the raw value (its
  names being distinct) other than \<^verbatim>\<open>__proto__\<close> is an own property of the entity
  with the raw value's value, the names that start with the underscore included; and
  \<^verbatim>\<open>toRaw\<close> of the entity does not give a name with the underscore back.
\<close>

theorem fromRaw_copies_every_key:
  assumes "fromRaw v this raw = (Normal, this')"
    and "distinct (map fst (ownEntries raw))" and "(key, val) \<in> set (ownEntries raw)"
    and "key \<noteq> ''__proto__''"
  shows "map_of (own this') key = Some val \<and>
     (startsWith key ''_'' \<longrightarrow> map_of (toRaw exclude (own this')) key = None)"
proof -
  from fromRaw_validated [OF assms(1)]
  have "Object_assign_loop this (ownEntries raw) = (Normal, this')"
    by (simp add: Object_assign_def)
  from assign_loop_distinct_lookup [OF this assms(2,3,4)]
  have 1: "map_of (own this') key = Some val" .
  have "startsWith key ''_'' \<Longrightarrow> key \<notin> fst ` set (toRaw exclude (own this'))"
    using keys_toRaw_loop [of exclude "own this'" "[]"] by (simp add: toRaw_def [symmetric])
  then have "startsWith key ''_'' \<Longrightarrow> map_of (toRaw exclude (own this')) key = None"
    by (simp add: map_of_eq_None_iff)
  with 1 show ?thesis by simp
qed

theorem fromRaw_copies_every_key_witness:
  "fromRaw validate new_Serializable (Obj [(''_x'', Num 1), (''email'', Str ''a'')]) =
     (Normal, entity_with [(''_x'', Num 1), (''email'', Str ''a'')]) \<and>
   map_of (own (entity_with [(''_x'', Num 1), (''email'', Str ''a'')])) ''_x'' = Some (Num 1) \<and>
   map_of (toRaw [] (own (entity_with [(''_x'', Num 1), (''email'', Str ''a'')]))) ''_x'' = None"
proof -
  have r: "fromRaw validate new_Serializable (Obj [(''_x'', Num 1), (''email'', Str ''a'')]) =
      (Normal, entity_with [(''_x'', Num 1), (''email'', Str ''a'')])"
    by code_simp
  have d: "distinct (map fst (ownEntries (Obj [(''_x'', Num 1), (''email'', Str ''a'')])))"
    by simp
  have m: "(''_x'', Num 1) \<in> set (ownEntries (Obj [(''_x'', Num 1), (''email'', Str ''a'')]))"
    by simp
  have n: "''_x'' \<noteq> ''__proto__''" by simp
  have "startsWith ''_x'' ''_''" by (simp add: startsWith_def)
  with fromRaw_copies_every_key [OF r d m n, of "[]"] r show ?thesis by simp
qed



text \<open>
  Claim C2. The code does not turn every failure of \<^verbatim>\<open>fromRaw\<close> into
  \<^verbatim>\<open>ENCODING_ERROR\<close>: for a raw value with the key \<^verbatim>\<open>type\<close> the assignment,
  which stands before the \<^verbatim>\<open>try\<close> block, throws a \<^verbatim>\<open>TypeError\<close>, and the
  properties assigned before that key stay on the entity.
\<close>

theorem fromRaw_type_key_TypeError:
  "fromRaw validate new_Serializable (Obj [(''type'', Str ''x'')]) =
     (Throw TypeError, new_Serializable) \<and>
   fromRaw validate new_Serializable (Obj [(''a'', Num 1), (''type'', Str ''x'')]) =
     (Throw TypeError, entity_with [(''a'', Num 1)])"
  by code_simp

text \<open>
  Claim C4. The code does not go through \<^verbatim>\<open>unmarshal\<close>: for a text that is not JSON,
  \<^verbatim>\<open>fromJSON\<close> throws the \<^verbatim>\<open>SyntaxError\<close> of \<^verbatim>\<open>JSON.parse\<close> as it is, where
  \<^verbatim>\<open>unmarshal\<close> throws \<^verbatim>\<open>ENCODING_ERROR\<close>.
\<close>

theorem fromJSON_leaks_SyntaxError:
  "fromJSON ref_host validate new_Serializable ''{'' = (Throw SyntaxError, new_Serializable) \<and>
   unmarshal ref_host ''{'' = Inl (Err ENCODING_ERROR)"
  by code_simp




end
